theory Spec2Isabelle
  imports Main
begin

section \<open>Order lookup service (src/app.js): data model\<close>

text \<open>
  The model follows the first module of \<^verbatim>\<open>src/app.js\<close> (the one that defines
  \<^verbatim>\<open>searchOrdersByEmail\<close>, \<^verbatim>\<open>searchOrdersByPhone\<close> and the
  \<^verbatim>\<open>/get_orders\<close> handler).

  Conventions.
  \<^item> JavaScript strings are \<open>string\<close>. HTTP header values reach Node as Latin-1, one
    \<open>char\<close> per code unit, which is what the link-header pattern is matched on.
  \<^item> A field that the code guards against absence (\<^verbatim>\<open>x && ...\<close>, \<^verbatim>\<open>x || d\<close>), or that
    the upstream may leave empty and the code only copies, is an \<open>option\<close> (\<open>None\<close> is
    \<^verbatim>\<open>null\<close>/\<^verbatim>\<open>undefined\<close>); a field the code dereferences without a guard is taken to
    be present, so upstream payloads are well formed.
  \<^item> The fulfillment status differs between the two upstream shapes. The REST order has
    \<^verbatim>\<open>fulfillment_status\<close> empty for an order not yet fulfilled, which is why line 112
    guards it: it is an \<open>option\<close>. The graph order's \<^verbatim>\<open>displayFulfillmentStatus\<close> is a
    value the upstream always fills, and line 242 copies it without a guard: it is a
    \<open>string\<close>. Either way the output field is a string.
  \<^item> Quantities are integers (\<open>int\<close>), as the upstream API delivers them.
  \<^item> An address is copied through unchanged; it is kept as an opaque text.
\<close>

type_synonym address = string

subsection \<open>Canonical output (the objects built at lines 108-125 and 237-259)\<close>

record line_item =
  title :: string
  quantity :: int
  price :: string

record tracking =
  tracking_number :: "string option"
  tracking_company :: "string option"
  tracking_url :: "string option"

record order_summary =
  order_number :: string
  created_at :: string
  total_price :: string
  currency_code :: "string option"
  fulfillment_status :: string
  items_count :: int
  shipping_address :: "address option"
  tracking_info :: "tracking option"
  line_items :: "line_item list"
  customer_name :: "string option"
  customer_email :: "string option"

subsection \<open>REST shape (\<^verbatim>\<open>response.data.orders\<close> of \<^verbatim>\<open>/orders.json\<close>)\<close>

record rest_line_item =
  rli_title :: string
  rli_quantity :: int
  rli_price :: string

record rest_fulfillment =
  rf_tracking_number :: "string option"
  rf_tracking_company :: "string option"
  rf_tracking_url :: "string option"

record rest_order =
  ro_name :: string
  ro_created_at :: string
  ro_total_price :: string
  ro_fulfillment_status :: "string option"
  ro_line_items :: "rest_line_item list"
  ro_shipping_address :: "address option"
  ro_fulfillments :: "rest_fulfillment list option"

record rest_response =
  data_orders :: "rest_order list"
  headers_link :: "string option"

subsection \<open>Graph shape (the selection sets of \<^verbatim>\<open>customerQuery\<close> and \<^verbatim>\<open>orderQuery\<close>)\<close>

text \<open>
  The \<^verbatim>\<open>edges { node { ... } }\<close> wrappers are flattened: a connection is the list of its
  nodes, in edge order.
\<close>

record money =
  amount :: string
  currencyCode :: string

record money_set =
  shopMoney :: money

record graph_line_item =
  gli_name :: string
  gli_quantity :: int
  gli_originalUnitPriceSet :: money_set

record tracking_entry =
  company :: "string option"
  number :: "string option"
  url :: "string option"

record graph_fulfillment =
  trackingInfo :: "tracking_entry list"

record customer =
  c_id :: string
  c_displayName :: string
  c_email :: "string option"

record graph_order =
  g_id :: string
  g_name :: string
  g_createdAt :: string
  g_totalPriceSet :: money_set
  g_displayFulfillmentStatus :: string
  g_lineItems :: "graph_line_item list"
  g_shippingAddress :: "address option"
  g_fulfillments :: "graph_fulfillment list option"

text \<open>
  Line 224-228: \<^verbatim>\<open>{...edge.node, customerName: ..., customerEmail: ...}\<close> is the order node
  extended by two fields.
\<close>

record customer_order = graph_order +
  customerName :: string
  customerEmail :: "string option"

section \<open>The two normalizers\<close>

text \<open>\<^verbatim>\<open>a || b\<close> on a possibly absent string: the empty string is falsy as well.\<close>

definition or_default :: "string option \<Rightarrow> string \<Rightarrow> string" where
  "or_default v d = (case v of None \<Rightarrow> d | Some s \<Rightarrow> if s = [] then d else s)"

text \<open>Lines 108-125, the callback of \<^verbatim>\<open>allOrders.map\<close> in \<^verbatim>\<open>searchOrdersByEmail\<close>.\<close>

definition rest_tracking_info :: "rest_order \<Rightarrow> tracking option" where
  "rest_tracking_info order =
     (case ro_fulfillments order of
        None \<Rightarrow> None
      | Some [] \<Rightarrow> None
      | Some (f # _) \<Rightarrow>
          Some \<lparr> tracking_number = rf_tracking_number f,
                 tracking_company = rf_tracking_company f,
                 tracking_url = rf_tracking_url f \<rparr>)"

definition normalize_rest :: "rest_order \<Rightarrow> order_summary" where
  "normalize_rest order =
     \<lparr> order_number = ro_name order,
       created_at = ro_created_at order,
       total_price = ro_total_price order,
       currency_code = None,
       fulfillment_status = or_default (ro_fulfillment_status order) ''unfulfilled'',
       items_count = foldl (\<lambda>sum item. sum + rli_quantity item) 0 (ro_line_items order),
       shipping_address = ro_shipping_address order,
       tracking_info = rest_tracking_info order,
       line_items = map (\<lambda>item. \<lparr> title = rli_title item,
                                   quantity = rli_quantity item,
                                   price = rli_price item \<rparr>) (ro_line_items order),
       customer_name = None,
       customer_email = None \<rparr>"

text \<open>Lines 237-259, the callback of \<^verbatim>\<open>allOrders.map\<close> in \<^verbatim>\<open>searchOrdersByPhone\<close>.\<close>

definition graph_tracking_info :: "'a graph_order_scheme \<Rightarrow> tracking option" where
  "graph_tracking_info order =
     (case g_fulfillments order of
        None \<Rightarrow> None
      | Some [] \<Rightarrow> None
      | Some (f # _) \<Rightarrow>
          (case trackingInfo f of
             [] \<Rightarrow> None
           | t # _ \<Rightarrow>
               Some \<lparr> tracking_number = number t,
                      tracking_company = company t,
                      tracking_url = url t \<rparr>))"

definition normalize_graph :: "customer_order \<Rightarrow> order_summary" where
  "normalize_graph order =
     \<lparr> order_number = g_name order,
       created_at = g_createdAt order,
       total_price = amount (shopMoney (g_totalPriceSet order)),
       currency_code = Some (currencyCode (shopMoney (g_totalPriceSet order))),
       fulfillment_status = g_displayFulfillmentStatus order,
       items_count = foldl (\<lambda>sum edge. sum + gli_quantity edge) 0 (g_lineItems order),
       shipping_address = g_shippingAddress order,
       tracking_info = graph_tracking_info order,
       line_items = map (\<lambda>edge. \<lparr> title = gli_name edge,
                                   quantity = gli_quantity edge,
                                   price = amount (shopMoney (gli_originalUnitPriceSet edge)) \<rparr>)
                        (g_lineItems order),
       customer_name = Some (customerName order),
       customer_email = customerEmail order \<rparr>"

section \<open>External collaborators\<close>

text \<open>
  What the handler reaches outside the source file is a parameter of the model:
  \<^item> \<open>rest_get\<close>: \<^verbatim>\<open>shopifyApi.get(url)\<close>, returning the response or throwing;
  \<^item> \<open>graph_customers\<close>: \<^verbatim>\<open>graphqlClient.request(customerQuery, {query})\<close>;
  \<^item> \<open>graph_orders\<close>: \<^verbatim>\<open>graphqlClient.request(orderQuery, {customerId, first})\<close>, with the
    \<^verbatim>\<open>lineItems(first: ...)\<close> argument of the query text as third argument;
  \<^item> \<open>cache_get\<close>, \<open>cache_set\<close>: the \<^verbatim>\<open>node-cache\<close> store created at line 36. Its code is
    not part of the source, so the store is an abstract state \<open>'c\<close>; \<open>cache_set\<close> returns
    the new store and whether the call returned normally (\<open>False\<close>: it threw). What the
    options \<^verbatim>\<open>stdTTL\<close> and \<^verbatim>\<open>maxKeys\<close> make the store do is inside the library and is
    left open here;
  \<^item> \<open>encodeURIComponent\<close> and \<open>date_ms\<close> (\<^verbatim>\<open>new Date(s)\<close> as a number): the
    JavaScript built-ins.
  Every call to the upstream service or to the cache is recorded as an \<open>event\<close>.
\<close>

datatype error = UpstreamError

datatype event =
    RestGet string
  | GraphCustomers string
  | GraphOrders string
  | CacheGet string
  | CacheSet string

record 'c env =
  encodeURIComponent :: "string \<Rightarrow> string"
  date_ms :: "string \<Rightarrow> int"
  rest_get :: "string \<Rightarrow> error + rest_response"
  graph_customers :: "string \<Rightarrow> error + customer list"
  graph_orders :: "string \<Rightarrow> nat \<Rightarrow> nat \<Rightarrow> error + graph_order list"
  cache_get :: "'c \<Rightarrow> string \<Rightarrow> order_summary list option"
  cache_set :: "'c \<Rightarrow> string \<Rightarrow> order_summary list \<Rightarrow> 'c \<times> bool"

fun is_upstream :: "event \<Rightarrow> bool" where
  "is_upstream (RestGet _) = True"
| "is_upstream (GraphCustomers _) = True"
| "is_upstream (GraphOrders _) = True"
| "is_upstream (CacheGet _) = False"
| "is_upstream (CacheSet _) = False"

section \<open>searchOrdersByEmail (lines 83-126)\<close>

subsection \<open>The link-header pattern of line 97\<close>

text \<open>
  \<^verbatim>\<open>linkHeader.match(/<([^>]+)>;\s*rel="next"/)\<close>. \<open>match_at\<close> is the pattern anchored at
  the head of the string: the group \<^verbatim>\<open>[^>]+\<close> can only stop in front of the closing angle bracket, so it is the
  longest run of other characters; \<^verbatim>\<open>\s*\<close> can only stop in front of \<^verbatim>\<open>r\<close>. \<open>match_next\<close>
  tries the start positions from the left, as the regular-expression engine does, and
  returns \<^verbatim>\<open>match[1]\<close>.
\<close>

definition is_space :: "char \<Rightarrow> bool" where
  "is_space c = (c \<in> set [CHR 0x09, CHR 0x0A, CHR 0x0B, CHR 0x0C, CHR 0x0D, CHR 0x20, CHR 0xA0])"

definition rel_next :: string where
  \<open>rel_next = ''rel="next"''\<close>

definition match_at :: "string \<Rightarrow> string option" where
  "match_at s =
     (case s of
        [] \<Rightarrow> None
      | c # rest \<Rightarrow>
          if c \<noteq> CHR ''<'' then None
          else
            let cap = takeWhile (\<lambda>x. x \<noteq> CHR ''>'') rest;
                after = dropWhile (\<lambda>x. x \<noteq> CHR ''>'') rest
            in if cap = [] then None
               else (case after of
                       [] \<Rightarrow> None
                     | _ # after1 \<Rightarrow>
                         (case after1 of
                            [] \<Rightarrow> None
                          | d # after2 \<Rightarrow>
                              if d = CHR '';'' \<and>
                                 take (length rel_next) (dropWhile is_space after2) = rel_next
                              then Some cap else None)))"

fun match_next :: "string \<Rightarrow> string option" where
  "match_next [] = None"
| "match_next (c # cs) =
     (case match_at (c # cs) of Some cap \<Rightarrow> Some cap | None \<Rightarrow> match_next cs)"

text \<open>Lines 94-101: the value of \<^verbatim>\<open>nextPageUrl\<close> after a page has been read.\<close>

definition next_page_url :: "rest_response \<Rightarrow> string option" where
  "next_page_url response =
     (case headers_link response of
        None \<Rightarrow> None
      | Some linkHeader \<Rightarrow> if linkHeader = [] then None else match_next linkHeader)"

subsection \<open>The paging loop\<close>

definition initial_url :: "'c env \<Rightarrow> string \<Rightarrow> string" where
  "initial_url env email =
     ''/orders.json?status=any&email='' @ encodeURIComponent env email @ ''&limit=250''"

text \<open>
  Lines 87-106. The loop has no bound, so it may run forever: \<open>None\<close> is a loop that
  does not return. \<open>log\<close> collects the page fetches made so far.
\<close>

partial_function (option) email_loop ::
  "'c env \<Rightarrow> string option \<Rightarrow> rest_order list \<Rightarrow> event list
     \<Rightarrow> ((error + rest_order list) \<times> event list) option" where
  "email_loop env nextPageUrl allOrders log =
     (case nextPageUrl of
        None \<Rightarrow> Some (Inr allOrders, log)
      | Some u \<Rightarrow>
          if u = [] then Some (Inr allOrders, log)
          else (case rest_get env u of
                  Inl e \<Rightarrow> Some (Inl e, log @ [RestGet u])
                | Inr response \<Rightarrow>
                    email_loop env (next_page_url response)
                      (allOrders @ data_orders response) (log @ [RestGet u])))"

declare email_loop.simps [code]

definition searchOrdersByEmail ::
  "'c env \<Rightarrow> string \<Rightarrow> ((error + order_summary list) \<times> event list) option" where
  "searchOrdersByEmail env email =
     (case email_loop env (Some (initial_url env email)) [] [] of
        None \<Rightarrow> None
      | Some (Inl e, log) \<Rightarrow> Some (Inl e, log)
      | Some (Inr allOrders, log) \<Rightarrow> Some (Inr (map normalize_rest allOrders), log))"

section \<open>searchOrdersByPhone (lines 136-260)\<close>

text \<open>Line 152: \<^verbatim>\<open>phone.replace(/\D/g, '')\<close>.\<close>

definition is_digit :: "char \<Rightarrow> bool" where
  "is_digit c = (c \<in> set ''0123456789'')"

definition normalizedPhone :: "string \<Rightarrow> string" where
  "normalizedPhone phone = filter is_digit phone"

definition attach_customer :: "customer \<Rightarrow> graph_order \<Rightarrow> customer_order" where
  "attach_customer c node =
     graph_order.extend node
       (customer_order.fields (c_displayName c) (c_email c))"

text \<open>Lines 217-231: one order query per customer, in sequence; a failing query throws.\<close>

fun fetch_customer_orders ::
  "'c env \<Rightarrow> customer list \<Rightarrow> customer_order list
     \<Rightarrow> (error + customer_order list) \<times> event list" where
  "fetch_customer_orders env [] allOrders = (Inr allOrders, [])"
| "fetch_customer_orders env (c # rest) allOrders =
     (case graph_orders env (c_id c) 250 10 of
        Inl e \<Rightarrow> (Inl e, [GraphOrders (c_id c)])
      | Inr nodes \<Rightarrow>
          (case fetch_customer_orders env rest (allOrders @ map (attach_customer c) nodes) of
             (r, evs) \<Rightarrow> (r, GraphOrders (c_id c) # evs)))"

text \<open>
  Line 233: \<^verbatim>\<open>allOrders.sort((a, b) => new Date(b.createdAt) - new Date(a.createdAt))\<close>.
  \<^verbatim>\<open>Array.prototype.sort\<close> is a stable sort; it is modelled by stable insertion under the
  comparator (\<open>x\<close> goes in front of the first \<open>y\<close> with \<open>cmp x y \<le> 0\<close>), which for a
  comparator that compares keys yields the one stable sorted arrangement.
\<close>

fun insert_by :: "('a \<Rightarrow> 'a \<Rightarrow> int) \<Rightarrow> 'a \<Rightarrow> 'a list \<Rightarrow> 'a list" where
  "insert_by cmp x [] = [x]"
| "insert_by cmp x (y # ys) =
     (if cmp x y \<le> 0 then x # y # ys else y # insert_by cmp x ys)"

definition js_sort :: "('a \<Rightarrow> 'a \<Rightarrow> int) \<Rightarrow> 'a list \<Rightarrow> 'a list" where
  "js_sort cmp xs = foldr (insert_by cmp) xs []"

definition by_created_desc :: "'c env \<Rightarrow> customer_order \<Rightarrow> customer_order \<Rightarrow> int" where
  "by_created_desc env a b = date_ms env (g_createdAt b) - date_ms env (g_createdAt a)"

definition searchOrdersByPhone ::
  "'c env \<Rightarrow> string \<Rightarrow> (error + order_summary list) \<times> event list" where
  "searchOrdersByPhone env phone =
     (let query = ''phone:'' @ normalizedPhone phone in
      case graph_customers env query of
        Inl e \<Rightarrow> (Inl e, [GraphCustomers query])
      | Inr customers \<Rightarrow>
          (case fetch_customer_orders env customers [] of
             (Inl e, evs) \<Rightarrow> (Inl e, GraphCustomers query # evs)
           | (Inr allOrders, evs) \<Rightarrow>
               (Inr (map normalize_graph (js_sort (by_created_desc env) allOrders)),
                GraphCustomers query # evs)))"

section \<open>The /get_orders handler (lines 262-297)\<close>

datatype response =
    Json200 "order_summary list"
  | Json400 string
  | Json500 string

text \<open>Line 266: the template literal.\<close>

definition cacheKey :: "string \<Rightarrow> string \<Rightarrow> string" where
  "cacheKey contact_type contact_info = contact_type @ ''-'' @ contact_info"

text \<open>
  Lines 284-296: what follows the strategy call. A strategy that threw, or a
  \<^verbatim>\<open>cache.set\<close> that throws, ends in the \<^verbatim>\<open>catch\<close> block.
\<close>

definition respond ::
  "'c env \<Rightarrow> 'c \<Rightarrow> string \<Rightarrow> (error + order_summary list) \<Rightarrow> event list
     \<Rightarrow> response \<times> 'c \<times> event list" where
  "respond env cache key r evs =
     (case r of
        Inl e \<Rightarrow>
          (Json500 ''An error occurred while fetching the order information'', cache, evs)
      | Inr orders \<Rightarrow>
          if length orders \<le> 1000 then
            (case cache_set env cache key orders of
               (cache', returned) \<Rightarrow>
                 if returned then (Json200 orders, cache', evs @ [CacheSet key])
                 else (Json500 ''An error occurred while fetching the order information'',
                       cache', evs @ [CacheSet key]))
          else (Json200 orders, cache, evs))"

text \<open>
  The handler: the response, the store afterwards and the calls made, or \<open>None\<close> when
  the paging loop does not return. A stored value is an array, which is truthy, so
  \<^verbatim>\<open>if (cachedResult)\<close> is the test for a hit.
\<close>

definition get_orders ::
  "'c env \<Rightarrow> 'c \<Rightarrow> string \<Rightarrow> string \<Rightarrow> (response \<times> 'c \<times> event list) option" where
  "get_orders env cache contact_type contact_info =
     (let key = cacheKey contact_type contact_info in
      case cache_get env cache key of
        Some cachedResult \<Rightarrow> Some (Json200 cachedResult, cache, [CacheGet key])
      | None \<Rightarrow>
          if contact_type = ''email'' then
            (case searchOrdersByEmail env contact_info of
               None \<Rightarrow> None
             | Some (r, evs) \<Rightarrow> Some (respond env cache key r (CacheGet key # evs)))
          else if contact_type = ''phone'' then
            (case searchOrdersByPhone env contact_info of
               (r, evs) \<Rightarrow> Some (respond env cache key r (CacheGet key # evs)))
          else Some (Json400 ''Invalid contact type'', cache, [CacheGet key]))"

section \<open>Notions used to state the properties\<close>

text \<open>
  \<open>page_chain env u pages\<close>: the upstream data reached from URL \<open>u\<close> is exactly the
  pages \<open>pages\<close>, each but the last announcing a next page and the last announcing none.
  \<open>page_urls\<close> are the URLs of these pages.
\<close>

fun page_chain :: "'c env \<Rightarrow> string \<Rightarrow> rest_response list \<Rightarrow> bool" where
  "page_chain env u [] = False"
| "page_chain env u [r] = (rest_get env u = Inr r \<and> next_page_url r = None)"
| "page_chain env u (r # r' # rs) =
     (rest_get env u = Inr r \<and>
      (case next_page_url r of None \<Rightarrow> False | Some u' \<Rightarrow> page_chain env u' (r' # rs)))"

fun page_urls :: "string \<Rightarrow> rest_response list \<Rightarrow> string list" where
  "page_urls u [] = []"
| "page_urls u (r # rs) =
     u # (case next_page_url r of None \<Rightarrow> [] | Some u' \<Rightarrow> page_urls u' rs)"

text \<open>
  The orders of the customers in customer-then-order order, as the loop of lines 217-231
  collects them when every order query succeeds.
\<close>

definition aggregated :: "'c env \<Rightarrow> customer list \<Rightarrow> customer_order list" where
  "aggregated env customers =
     concat (map (\<lambda>c. case graph_orders env (c_id c) 250 10 of
                         Inl e \<Rightarrow> []
                       | Inr nodes \<Rightarrow> map (attach_customer c) nodes) customers)"

text \<open>The keys of the cache calls among the events, in call order.\<close>

fun cache_keys :: "event list \<Rightarrow> string list" where
  "cache_keys [] = []"
| "cache_keys (CacheGet k # evs) = k # cache_keys evs"
| "cache_keys (CacheSet k # evs) = k # cache_keys evs"
| "cache_keys (_ # evs) = cache_keys evs"

text \<open>
  Two requests for the same contact, one after the other, the second on the store the first
  has left: both responses with the calls each has made, and the final store.
\<close>

definition get_orders_twice ::
  "'c env \<Rightarrow> 'c \<Rightarrow> string \<Rightarrow> string
     \<Rightarrow> ((response \<times> event list) \<times> (response \<times> event list) \<times> 'c) option" where
  "get_orders_twice env cache contact_type contact_info =
     (case get_orders env cache contact_type contact_info of
        None \<Rightarrow> None
      | Some (resp1, cache1, evs1) \<Rightarrow>
          (case get_orders env cache1 contact_type contact_info of
             None \<Rightarrow> None
           | Some (resp2, cache2, evs2) \<Rightarrow> Some ((resp1, evs1), (resp2, evs2), cache2)))"

text \<open>The creation time of a returned order, as line 233 reads it.\<close>

definition created_ms :: "'c env \<Rightarrow> order_summary \<Rightarrow> int" where
  "created_ms env s = date_ms env (created_at s)"

section \<open>A concrete shop, for the examples\<close>

text \<open>
  An upstream with three pages of orders for \<^verbatim>\<open>a@b.c\<close>, one page of 1001 orders for
  \<^verbatim>\<open>big\<close>, none for \<^verbatim>\<open>a-b\<close>, and two customers with the phone number 5551234: Ann
  with orders created on 1 January and 1 March, Bob with one created on 1 February.
  The order query answers with at most \<open>first\<close> orders and at most \<open>k\<close> line items each.
  The store is a plain key-value map, without expiry or bound.
\<close>

definition demo_link1 :: string where
  \<open>demo_link1 = ''<https://shop/p2>; rel="next"''\<close>

definition demo_link2 :: string where
  \<open>demo_link2 = ''<https://shop/p1>; rel="previous", <https://shop/p3>; rel="next"''\<close>

definition demo_link3 :: string where
  \<open>demo_link3 = ''<https://shop/p2>; rel="previous"''\<close>

definition demo_rest_order :: "string \<Rightarrow> int list \<Rightarrow> rest_order" where
  "demo_rest_order nm qs =
     \<lparr> ro_name = nm, ro_created_at = ''2024-01-01'', ro_total_price = ''10.00'',
       ro_fulfillment_status = None,
       ro_line_items = map (\<lambda>q. \<lparr> rli_title = ''item'', rli_quantity = q,
                                   rli_price = ''5.00'' \<rparr>) qs,
       ro_shipping_address = None,
       ro_fulfillments = Some [] \<rparr>"

definition demo_page1 :: rest_response where
  "demo_page1 = \<lparr> data_orders = [demo_rest_order ''#1'' [1, 2]],
                   headers_link = Some demo_link1 \<rparr>"

definition demo_page2 :: rest_response where
  "demo_page2 = \<lparr> data_orders = [demo_rest_order ''#2'' [3]],
                   headers_link = Some demo_link2 \<rparr>"

definition demo_page3 :: rest_response where
  "demo_page3 = \<lparr> data_orders = [demo_rest_order ''#3'' []],
                   headers_link = Some demo_link3 \<rparr>"

definition demo_big_page :: rest_response where
  "demo_big_page = \<lparr> data_orders = replicate 1001 (demo_rest_order ''#9'' [1]),
                      headers_link = None \<rparr>"

definition demo_rest_get :: "string \<Rightarrow> error + rest_response" where
  "demo_rest_get u =
     (if u = ''/orders.json?status=any&email=a%40b.c&limit=250'' then Inr demo_page1
      else if u = ''https://shop/p2'' then Inr demo_page2
      else if u = ''https://shop/p3'' then Inr demo_page3
      else if u = ''/orders.json?status=any&email=big&limit=250'' then Inr demo_big_page
      else if u = ''/orders.json?status=any&email=a-b&limit=250''
        then Inr \<lparr> data_orders = [], headers_link = None \<rparr>
      else Inl UpstreamError)"

definition demo_encode :: "string \<Rightarrow> string" where
  "demo_encode s = concat (map (\<lambda>c. if c = CHR ''@'' then ''%40'' else [c]) s)"

definition demo_date_ms :: "string \<Rightarrow> int" where
  "demo_date_ms s =
     (if s = ''2024-01-01'' then 1704067200000
      else if s = ''2024-02-01'' then 1706745600000
      else if s = ''2024-03-01'' then 1709251200000
      else 0)"

definition demo_graph_order :: "string \<Rightarrow> string \<Rightarrow> int list \<Rightarrow> graph_order" where
  "demo_graph_order nm created qs =
     \<lparr> g_id = nm, g_name = nm, g_createdAt = created,
       g_totalPriceSet = \<lparr> shopMoney = \<lparr> amount = ''10.00'', currencyCode = ''USD'' \<rparr> \<rparr>,
       g_displayFulfillmentStatus = ''FULFILLED'',
       g_lineItems =
         map (\<lambda>q. \<lparr> gli_name = ''item'', gli_quantity = q,
                     gli_originalUnitPriceSet =
                       \<lparr> shopMoney = \<lparr> amount = ''5.00'', currencyCode = ''USD'' \<rparr> \<rparr> \<rparr>) qs,
       g_shippingAddress = None,
       g_fulfillments = Some [] \<rparr>"

definition demo_ann :: customer where
  "demo_ann = \<lparr> c_id = ''A'', c_displayName = ''Ann'', c_email = Some ''a@b.c'' \<rparr>"

definition demo_bob :: customer where
  "demo_bob = \<lparr> c_id = ''B'', c_displayName = ''Bob'', c_email = None \<rparr>"

definition demo_graph_customers :: "string \<Rightarrow> error + customer list" where
  "demo_graph_customers q =
     (if q = ''phone:5551234'' then Inr [demo_ann, demo_bob] else Inr [])"

definition demo_stored_orders :: "string \<Rightarrow> graph_order list option" where
  "demo_stored_orders cid =
     (if cid = ''A'' then
        Some [demo_graph_order ''#A1'' ''2024-01-01'' [1, 1, 1, 1, 1, 1, 1, 1, 1, 1, 1, 1],
              demo_graph_order ''#A3'' ''2024-03-01'' [2, 3]]
      else if cid = ''B'' then Some [demo_graph_order ''#B2'' ''2024-02-01'' [4]]
      else None)"

definition demo_graph_orders :: "string \<Rightarrow> nat \<Rightarrow> nat \<Rightarrow> error + graph_order list" where
  "demo_graph_orders cid first k =
     (case demo_stored_orders cid of
        None \<Rightarrow> Inl UpstreamError
      | Some os \<Rightarrow>
          Inr (take first (map (\<lambda>order. order\<lparr> g_lineItems := take k (g_lineItems order) \<rparr>) os)))"

definition demo_env :: "(string \<rightharpoonup> order_summary list) env" where
  "demo_env =
     \<lparr> encodeURIComponent = demo_encode,
       date_ms = demo_date_ms,
       rest_get = demo_rest_get,
       graph_customers = demo_graph_customers,
       graph_orders = demo_graph_orders,
       cache_get = (\<lambda>c k. c k),
       cache_set = (\<lambda>c k v. (c(k \<mapsto> v), True)) \<rparr>"

definition demo_email_summaries :: "order_summary list" where
  "demo_email_summaries =
     map normalize_rest (concat (map data_orders [demo_page1, demo_page2, demo_page3]))"

definition demo_phone_summaries :: "order_summary list" where
  "demo_phone_summaries =
     map normalize_graph
       [attach_customer demo_ann (demo_graph_order ''#A3'' ''2024-03-01'' [2, 3]),
        attach_customer demo_bob (demo_graph_order ''#B2'' ''2024-02-01'' [4]),
        attach_customer demo_ann
          (demo_graph_order ''#A1'' ''2024-01-01'' [1, 1, 1, 1, 1, 1, 1, 1, 1, 1])]"

section \<open>Auxiliary facts\<close>

subsection \<open>Normalizers\<close>

lemma foldl_add_sum: "foldl (\<lambda>s x. s + f x) a xs = (a::int) + sum_list (map f xs)"
  by (induction xs arbitrary: a) auto

lemma items_count_rest:
  "items_count (normalize_rest order) = sum_list (map quantity (line_items (normalize_rest order)))"
  by (simp add: normalize_rest_def foldl_add_sum comp_def)

lemma items_count_graph:
  "items_count (normalize_graph order) = sum_list (map quantity (line_items (normalize_graph order)))"
  by (simp add: normalize_graph_def foldl_add_sum comp_def)

lemma email_result_normalized:
  "searchOrdersByEmail env email = Some (Inr orders, evs) \<Longrightarrow> \<exists>raw. orders = map normalize_rest raw"
  by (auto simp: searchOrdersByEmail_def split: option.splits sum.splits prod.splits)

lemma phone_result_normalized:
  "searchOrdersByPhone env phone = (Inr orders, evs) \<Longrightarrow> \<exists>raw. orders = map normalize_graph raw"
  by (auto simp: searchOrdersByPhone_def Let_def split: option.splits sum.splits prod.splits)

lemma attach_customer_sel [simp]:
  "g_name (attach_customer c node) = g_name node"
  "g_createdAt (attach_customer c node) = g_createdAt node"
  "g_totalPriceSet (attach_customer c node) = g_totalPriceSet node"
  "g_displayFulfillmentStatus (attach_customer c node) = g_displayFulfillmentStatus node"
  "g_lineItems (attach_customer c node) = g_lineItems node"
  "g_shippingAddress (attach_customer c node) = g_shippingAddress node"
  "g_fulfillments (attach_customer c node) = g_fulfillments node"
  "customerName (attach_customer c node) = c_displayName c"
  "customerEmail (attach_customer c node) = c_email c"
  by (simp_all add: attach_customer_def graph_order.defs customer_order.defs)

subsection \<open>The link-header pattern and the paging loop\<close>

lemma match_at_nonempty: "match_at s = Some cap \<Longrightarrow> cap \<noteq> []"
  by (auto simp: match_at_def Let_def split: list.splits if_splits)

lemma match_next_nonempty: "match_next s = Some cap \<Longrightarrow> cap \<noteq> []"
  by (induction s) (auto split: option.splits dest: match_at_nonempty)

lemma next_page_url_nonempty: "next_page_url r = Some u \<Longrightarrow> u \<noteq> []"
  by (auto simp: next_page_url_def split: option.splits if_splits dest: match_next_nonempty)

lemma initial_url_nonempty: "initial_url env email \<noteq> []"
  by (simp add: initial_url_def)

lemma email_loop_chain:
  "page_chain env u pages \<Longrightarrow> u \<noteq> [] \<Longrightarrow>
   email_loop env (Some u) acc log =
     Some (Inr (acc @ concat (map data_orders pages)), log @ map RestGet (page_urls u pages))"
proof (induction env u pages arbitrary: acc log rule: page_chain.induct)
  case (1 env u)
  then show ?case by simp
next
  case (2 env u r)
  then show ?case by (simp add: email_loop.simps)
next
  case (3 env u r r' rs)
  from "3.prems" obtain u' where u': "next_page_url r = Some u'" "page_chain env u' (r' # rs)"
    and get: "rest_get env u = Inr r"
    by (auto split: option.splits)
  have ne: "u' \<noteq> []" using u'(1) by (rule next_page_url_nonempty)
  have "email_loop env (Some u) acc log =
        email_loop env (Some u') (acc @ data_orders r) (log @ [RestGet u])"
    using "3.prems"(2) get u'(1) by (subst email_loop.simps) simp
  also have "\<dots> = Some (Inr ((acc @ data_orders r) @ concat (map data_orders (r' # rs))),
                         (log @ [RestGet u]) @ map RestGet (page_urls u' (r' # rs)))"
    using "3.IH"[OF u'(1) u'(2) ne] .
  finally show ?case using u'(1) by simp
qed

lemma page_urls_length: "page_chain env u pages \<Longrightarrow> length (page_urls u pages) = length pages"
  by (induction env u pages rule: page_chain.induct) (auto split: option.splits)

lemma search_email_pages:
  "page_chain env (initial_url env email) pages \<Longrightarrow>
   searchOrdersByEmail env email =
     Some (Inr (map normalize_rest (concat (map data_orders pages))),
           map RestGet (page_urls (initial_url env email) pages))"
  using email_loop_chain[of env "initial_url env email" pages "[]" "[]"]
  by (simp add: searchOrdersByEmail_def initial_url_nonempty)

lemma email_loop_events:
  assumes run: "email_loop env u acc log = Some res"
  shows "take (length log) (snd res) = log \<and>
   (\<forall>e \<in> set (drop (length log) (snd res)). is_upstream e) \<and>
   ((\<exists>v. u = Some v \<and> v \<noteq> []) \<longrightarrow> length log < length (snd res))"
  using run
proof (induction env u acc log res rule: email_loop.raw_induct)
  case (1 lp env u acc log res)
  show ?case
  proof (cases u)
    case None
    with "1.hyps" show ?thesis by auto
  next
    case (Some v)
    show ?thesis
    proof (cases "v = []")
      case True
      with Some "1.hyps" show ?thesis by auto
    next
      case False
      show ?thesis
      proof (cases "rest_get env v")
        case (Inl e)
        with Some False "1.hyps" show ?thesis by auto
      next
        case (Inr r)
        with Some False "1.hyps"
        have a: "lp env (next_page_url r) (acc @ data_orders r) (log @ [RestGet v]) = Some res"
          by simp
        from Some False Inr "1.prems"
        have b: "email_loop env (next_page_url r) (acc @ data_orders r) (log @ [RestGet v]) = Some res"
          by (subst (asm) email_loop.simps) simp
        from "1.IH"[OF a b] have
          tk: "take (Suc (length log)) (snd res) = log @ [RestGet v]" and
          up: "\<forall>e \<in> set (drop (Suc (length log)) (snd res)). is_upstream e"
          by simp_all
        from tk have len: "length log < length (snd res)"
          by (metis length_append_singleton length_take lessI min_less_iff_conj)
        from tk have t1: "take (length log) (snd res) = log"
          by (metis butlast_snoc butlast_take diff_Suc_1 len Suc_leI)
        from tk len have nth: "snd res ! length log = RestGet v"
          by (metis nth_take lessI nth_append_length)
        have "drop (length log) (snd res) = RestGet v # drop (Suc (length log)) (snd res)"
          using len nth by (simp add: Cons_nth_drop_Suc[symmetric])
        with up t1 len show ?thesis by simp
      qed
    qed
  qed
qed (rule run)

lemma email_events:
  "searchOrdersByEmail env email = Some (r, evs) \<Longrightarrow> evs \<noteq> [] \<and> (\<forall>e \<in> set evs. is_upstream e)"
  using email_loop_events[of env "Some (initial_url env email)" "[]" "[]"]
  by (fastforce simp: searchOrdersByEmail_def initial_url_nonempty split: option.splits sum.splits prod.splits)

subsection \<open>The phone strategy: calls, aggregation, sorting\<close>

lemma fetch_events:
  "fetch_customer_orders env cs acc = (r, evs) \<Longrightarrow> e \<in> set evs \<Longrightarrow> is_upstream e"
  by (induction cs arbitrary: acc r evs) (auto split: sum.splits prod.splits)

lemma phone_events:
  "searchOrdersByPhone env phone = (r, evs) \<Longrightarrow> evs \<noteq> [] \<and> (\<forall>e \<in> set evs. is_upstream e)"
  by (auto simp: searchOrdersByPhone_def Let_def split: sum.splits prod.splits dest: fetch_events)

lemma insert_by_created:
  "insert_by (by_created_desc env) x ys = insort_key (\<lambda>o'. - date_ms env (g_createdAt o')) x ys"
  by (induction ys) (auto simp: by_created_desc_def)

lemma js_sort_created:
  "js_sort (by_created_desc env) xs = sort_key (\<lambda>o'. - date_ms env (g_createdAt o')) xs"
  by (induction xs) (simp_all add: js_sort_def sort_key_def insert_by_created)

lemma created_ms_normalize_graph [simp]:
  "created_ms env (normalize_graph x) = date_ms env (g_createdAt x)"
  by (simp add: created_ms_def normalize_graph_def)

lemma sorted_desc_js_sort:
  "sorted_wrt (\<lambda>a b. created_ms env b \<le> created_ms env a)
     (map normalize_graph (js_sort (by_created_desc env) xs))"
proof -
  have "sorted (map (\<lambda>o'. - date_ms env (g_createdAt o')) (sort_key (\<lambda>o'. - date_ms env (g_createdAt o')) xs))"
    by (rule sorted_sort_key)
  then show ?thesis
    by (simp add: js_sort_created sorted_map sorted_wrt_map)
qed

lemma stable_js_sort:
  "filter (\<lambda>s. created_ms env s = t) (map normalize_graph (js_sort (by_created_desc env) xs)) =
   filter (\<lambda>s. created_ms env s = t) (map normalize_graph xs)"
proof -
  have "filter (\<lambda>y. - date_ms env (g_createdAt y) = - t) (sort_key (\<lambda>o'. - date_ms env (g_createdAt o')) xs) =
        filter (\<lambda>y. - date_ms env (g_createdAt y) = - t) xs"
    by (rule sort_key_stable)
  then show ?thesis
    by (simp add: js_sort_created filter_map comp_def)
qed

lemma set_js_sort: "set (js_sort (by_created_desc env) xs) = set xs"
  by (simp add: js_sort_created)

lemma fetch_aggregated:
  "fetch_customer_orders env cs acc = (Inr allOrders, evs) \<Longrightarrow>
   allOrders = acc @ aggregated env cs"
proof (induction cs arbitrary: acc evs)
  case Nil
  then show ?case by (simp add: aggregated_def)
next
  case (Cons c cs)
  from Cons.prems obtain nodes evs' where
    nodes: "graph_orders env (c_id c) 250 10 = Inr nodes" and
    rest: "fetch_customer_orders env cs (acc @ map (attach_customer c) nodes) = (Inr allOrders, evs')"
    by (auto split: sum.splits prod.splits)
  from Cons.IH[OF rest] nodes show ?case by (simp add: aggregated_def)
qed

lemma phone_result:
  "searchOrdersByPhone env phone = (Inr orders, evs) \<Longrightarrow>
   graph_customers env (''phone:'' @ normalizedPhone phone) = Inr customers \<Longrightarrow>
   orders = map normalize_graph (js_sort (by_created_desc env) (aggregated env customers))"
  by (auto simp: searchOrdersByPhone_def Let_def split: sum.splits prod.splits dest: fetch_aggregated)

lemma phone_customers:
  "searchOrdersByPhone env phone = (Inr orders, evs) \<Longrightarrow>
   \<exists>customers. graph_customers env (''phone:'' @ normalizedPhone phone) = Inr customers"
  by (auto simp: searchOrdersByPhone_def Let_def split: sum.splits prod.splits)

lemma aggregated_member:
  "x \<in> set (aggregated env cs) \<Longrightarrow>
   \<exists>c nodes node. graph_orders env (c_id c) 250 10 = Inr nodes \<and> node \<in> set nodes \<and>
                  x = attach_customer c node"
proof -
  assume "x \<in> set (aggregated env cs)"
  then obtain c where c: "c \<in> set cs"
    "x \<in> set (case graph_orders env (c_id c) 250 10 of Inl e \<Rightarrow> [] | Inr nodes \<Rightarrow> map (attach_customer c) nodes)"
    by (auto simp: aggregated_def)
  then obtain nodes where nodes: "graph_orders env (c_id c) 250 10 = Inr nodes"
    by (cases "graph_orders env (c_id c) 250 10") auto
  with c(2) obtain node where "node \<in> set nodes" "x = attach_customer c node" by auto
  with nodes show ?thesis by blast
qed

subsection \<open>The handler\<close>

lemma cache_keys_append: "cache_keys (xs @ ys) = cache_keys xs @ cache_keys ys"
  by (induction xs rule: cache_keys.induct) simp_all

lemma cache_keys_upstream: "\<forall>e \<in> set evs. is_upstream e \<Longrightarrow> cache_keys evs = []"
  by (induction evs rule: cache_keys.induct) simp_all

lemma respond_keys:
  "respond env cache key r (CacheGet key # evs) = (resp, cache', evs') \<Longrightarrow>
   \<forall>e \<in> set evs. is_upstream e \<Longrightarrow>
   hd evs' = CacheGet key \<and>
   (cache_keys evs' = [key] \<or> cache_keys evs' = [key, key] \<and> last evs' = CacheSet key)"
  by (auto simp: respond_def cache_keys_append cache_keys_upstream split: sum.splits if_splits prod.splits)

lemma get_orders_invalid_type:
  "contact_type \<noteq> ''email'' \<Longrightarrow> contact_type \<noteq> ''phone'' \<Longrightarrow>
   get_orders env cache contact_type contact_info =
     Some (case cache_get env cache (cacheKey contact_type contact_info) of
             Some cachedResult \<Rightarrow> Json200 cachedResult
           | None \<Rightarrow> Json400 ''Invalid contact type'',
           cache, [CacheGet (cacheKey contact_type contact_info)])"
  by (simp add: get_orders_def Let_def split: option.splits)

subsection \<open>The concrete shop\<close>

lemma demo_env_sel [simp]:
  "encodeURIComponent demo_env = demo_encode"
  "date_ms demo_env = demo_date_ms"
  "rest_get demo_env = demo_rest_get"
  "graph_customers demo_env = demo_graph_customers"
  "graph_orders demo_env = demo_graph_orders"
  "cache_get demo_env c k = c k"
  "cache_set demo_env c k v = (c(k \<mapsto> v), True)"
  by (simp_all add: demo_env_def)

lemma demo_initial_url:
  "initial_url demo_env ''a@b.c'' = ''/orders.json?status=any&email=a%40b.c&limit=250''"
  "initial_url demo_env ''big'' = ''/orders.json?status=any&email=big&limit=250''"
  "initial_url demo_env ''a-b'' = ''/orders.json?status=any&email=a-b&limit=250''"
  by (simp_all add: initial_url_def demo_encode_def)

lemma demo_next_page_url:
  "next_page_url demo_page1 = Some ''https://shop/p2''"
  "next_page_url demo_page2 = Some ''https://shop/p3''"
  "next_page_url demo_page3 = None"
  "next_page_url demo_big_page = None"
  "next_page_url \<lparr> data_orders = [], headers_link = None \<rparr> = None"
  by (simp_all add: next_page_url_def demo_page1_def demo_page2_def demo_page3_def
        demo_big_page_def demo_link1_def demo_link2_def demo_link3_def match_at_def
        rel_next_def is_space_def)

lemma demo_chain:
  "page_chain demo_env (initial_url demo_env ''a@b.c'') [demo_page1, demo_page2, demo_page3]"
  by (simp add: demo_initial_url demo_next_page_url demo_rest_get_def)

lemma demo_email_run:
  "searchOrdersByEmail demo_env ''a@b.c'' =
     Some (Inr demo_email_summaries,
           [RestGet ''/orders.json?status=any&email=a%40b.c&limit=250'',
            RestGet ''https://shop/p2'', RestGet ''https://shop/p3''])"
  using search_email_pages[OF demo_chain]
  by (simp add: demo_initial_url demo_next_page_url demo_email_summaries_def)

lemma demo_big_run:
  "searchOrdersByEmail demo_env ''big'' =
     Some (Inr (replicate 1001 (normalize_rest (demo_rest_order ''#9'' [1]))),
           [RestGet ''/orders.json?status=any&email=big&limit=250''])"
proof -
  have "page_chain demo_env (initial_url demo_env ''big'') [demo_big_page]"
    by (simp add: demo_initial_url demo_next_page_url demo_rest_get_def)
  moreover have "data_orders demo_big_page = replicate 1001 (demo_rest_order ''#9'' [1])"
    by (simp add: demo_big_page_def)
  ultimately show ?thesis
    using search_email_pages[of demo_env "''big''" "[demo_big_page]"]
    by (simp add: demo_initial_url demo_next_page_url)
qed

lemma demo_empty_run:
  "searchOrdersByEmail demo_env ''a-b'' =
     Some (Inr [], [RestGet ''/orders.json?status=any&email=a-b&limit=250''])"
proof -
  have "page_chain demo_env (initial_url demo_env ''a-b'') [\<lparr> data_orders = [], headers_link = None \<rparr>]"
    by (simp add: demo_initial_url demo_next_page_url demo_rest_get_def)
  from search_email_pages[OF this] show ?thesis
    by (simp add: demo_initial_url demo_next_page_url)
qed

lemma demo_customers: 
  "graph_customers demo_env (''phone:'' @ normalizedPhone ''555-1234'') = Inr [demo_ann, demo_bob]"
  by (simp add: normalizedPhone_def is_digit_def demo_graph_customers_def)

lemma demo_orders_A:
  "demo_graph_orders ''A'' 250 10 =
     Inr [demo_graph_order ''#A1'' ''2024-01-01'' [1, 1, 1, 1, 1, 1, 1, 1, 1, 1],
          demo_graph_order ''#A3'' ''2024-03-01'' [2, 3]]"
  by (simp add: demo_graph_orders_def demo_stored_orders_def demo_graph_order_def)

lemma demo_orders_B:
  "demo_graph_orders ''B'' 250 10 = Inr [demo_graph_order ''#B2'' ''2024-02-01'' [4]]"
  by (simp add: demo_graph_orders_def demo_stored_orders_def demo_graph_order_def)

lemma demo_phone_run:
  "searchOrdersByPhone demo_env ''555-1234'' =
     (Inr demo_phone_summaries,
      [GraphCustomers ''phone:5551234'', GraphOrders ''A'', GraphOrders ''B''])"
proof -
  have ids: "c_id demo_ann = ''A''" "c_id demo_bob = ''B''"
    by (simp_all add: demo_ann_def demo_bob_def)
  have dates: "g_createdAt (demo_graph_order nm d qs) = d" for nm d qs
    by (simp add: demo_graph_order_def)
  have q: "''phone:'' @ normalizedPhone ''555-1234'' = ''phone:5551234''"
    by (simp add: normalizedPhone_def is_digit_def)
  show ?thesis
    unfolding searchOrdersByPhone_def Let_def q demo_phone_summaries_def
    by (simp add: demo_graph_customers_def ids demo_orders_A demo_orders_B js_sort_def
          by_created_desc_def dates demo_date_ms_def)
qed

lemma demo_limit:
  "\<forall>cid nodes. graph_orders demo_env cid 250 10 = Inr nodes \<longrightarrow>
     (\<forall>node \<in> set nodes. length (g_lineItems node) \<le> 10)"
  by (auto simp: demo_graph_orders_def split: option.splits dest!: in_set_takeD)

lemma demo_phone_created:
  "map created_at demo_phone_summaries = [''2024-03-01'', ''2024-02-01'', ''2024-01-01'']"
  by (simp add: demo_phone_summaries_def normalize_graph_def demo_graph_order_def)

lemma demo_phone_line_items:
  "map (\<lambda>s. (length (line_items s), items_count s)) demo_phone_summaries =
     [(2, 5), (1, 4), (10, 10)]"
  by (simp add: demo_phone_summaries_def normalize_graph_def demo_graph_order_def)

lemma demo_email_lookup:
  "get_orders demo_env Map.empty ''email'' ''a@b.c'' =
     Some (Json200 demo_email_summaries, [''email-a@b.c'' \<mapsto> demo_email_summaries],
           [CacheGet ''email-a@b.c'',
            RestGet ''/orders.json?status=any&email=a%40b.c&limit=250'',
            RestGet ''https://shop/p2'', RestGet ''https://shop/p3'',
            CacheSet ''email-a@b.c''])"
proof -
  have len: "length demo_email_summaries \<le> 1000"
    by (simp add: demo_email_summaries_def demo_page1_def demo_page2_def demo_page3_def)
  show ?thesis
    by (simp add: get_orders_def Let_def cacheKey_def demo_email_run respond_def len)
qed

section \<open>The claims\<close>

text \<open>
  C1. Every order returned by the email strategy and every order returned by the phone
  strategy has \<open>items_count\<close> equal to the sum of the \<open>quantity\<close> fields of its
  \<open>line_items\<close>.
\<close>

theorem items_count_is_quantity_sum:
  "(searchOrdersByEmail env email = Some (Inr orders, evs) \<longrightarrow>
      (\<forall>s \<in> set orders. items_count s = sum_list (map quantity (line_items s)))) \<and>
   (searchOrdersByPhone env phone = (Inr orders', evs') \<longrightarrow>
      (\<forall>s \<in> set orders'. items_count s = sum_list (map quantity (line_items s))))"
  using email_result_normalized[of env email orders evs]
    phone_result_normalized[of env phone orders' evs']
  by (auto simp: items_count_rest items_count_graph)

theorem items_count_is_quantity_sum_witness:
  "searchOrdersByEmail demo_env ''a@b.c'' =
     Some (Inr demo_email_summaries,
           [RestGet ''/orders.json?status=any&email=a%40b.c&limit=250'',
            RestGet ''https://shop/p2'', RestGet ''https://shop/p3'']) \<and>
   list_all (\<lambda>s. items_count s = sum_list (map quantity (line_items s))) demo_email_summaries \<and>
   searchOrdersByPhone demo_env ''555-1234'' =
     (Inr demo_phone_summaries,
      [GraphCustomers ''phone:5551234'', GraphOrders ''A'', GraphOrders ''B'']) \<and>
   list_all (\<lambda>s. items_count s = sum_list (map quantity (line_items s))) demo_phone_summaries"
  using items_count_is_quantity_sum[of demo_env "''a@b.c''" demo_email_summaries
      "[RestGet ''/orders.json?status=any&email=a%40b.c&limit=250'',
        RestGet ''https://shop/p2'', RestGet ''https://shop/p3'']"
      "''555-1234''" demo_phone_summaries
      "[GraphCustomers ''phone:5551234'', GraphOrders ''A'', GraphOrders ''B'']"]
  by (simp add: demo_email_run demo_phone_run list_all_iff)

text \<open>
  C2. When the upstream data reached from the initial query is a chain of \<open>n\<close> pages,
  each page but the last carrying a \<^verbatim>\<open>rel="next"\<close> link to the following one and the
  last carrying none, the email strategy returns: it yields the normalized orders of all
  pages concatenated in page order, and it makes exactly the \<open>n\<close> fetches of these pages,
  in order.
\<close>

theorem email_paging:
  assumes "page_chain env (initial_url env email) pages"
  shows "searchOrdersByEmail env email =
           Some (Inr (map normalize_rest (concat (map data_orders pages))),
                 map RestGet (page_urls (initial_url env email) pages)) \<and>
         length (map RestGet (page_urls (initial_url env email) pages)) = length pages"
  using search_email_pages[OF assms] page_urls_length[OF assms] by simp

theorem email_paging_witness:
  "page_chain demo_env (initial_url demo_env ''a@b.c'') [demo_page1, demo_page2, demo_page3] \<and>
   searchOrdersByEmail demo_env ''a@b.c'' =
     Some (Inr (map normalize_rest (concat (map data_orders [demo_page1, demo_page2, demo_page3]))),
           [RestGet ''/orders.json?status=any&email=a%40b.c&limit=250'',
            RestGet ''https://shop/p2'', RestGet ''https://shop/p3'']) \<and>
   length [RestGet ''/orders.json?status=any&email=a%40b.c&limit=250'',
           RestGet ''https://shop/p2'', RestGet ''https://shop/p3''] =
     length [demo_page1, demo_page2, demo_page3]"
  using email_paging[OF demo_chain] demo_chain
  by (simp add: demo_initial_url demo_next_page_url)

text \<open>
  C4 (as stated: the key is \<open>contact_type\<close>, a colon, \<open>contact_info\<close>). The handler
  joins the two with a hyphen (line 266): the lookup of \<^verbatim>\<open>a@b.c\<close> by email reads and
  writes the key \<^verbatim>\<open>email-a@b.c\<close>, and never the key with a colon.
\<close>

theorem cache_key_colon_counterexample:
  "map_option (cache_keys \<circ> snd \<circ> snd) (get_orders demo_env Map.empty ''email'' ''a@b.c'') =
     Some [''email-a@b.c'', ''email-a@b.c''] \<and>
   ''email'' @ '':'' @ ''a@b.c'' \<notin> set [''email-a@b.c'', ''email-a@b.c'']"
  by (simp add: demo_email_lookup)

text \<open>
  C4 (amended). For every lookup that returns, the key of the cache read and of the cache
  write is the exact concatenation of \<open>contact_type\<close>, a hyphen and \<open>contact_info\<close>: the
  first call is the read of that key, and the only other cache call, if any, is a write of
  the same key, made last.
\<close>

theorem cache_key_hyphen:
  assumes "get_orders env cache contact_type contact_info = Some (resp, cache', evs)"
  shows "hd evs = CacheGet (contact_type @ ''-'' @ contact_info) \<and>
         (cache_keys evs = [contact_type @ ''-'' @ contact_info] \<or>
          cache_keys evs = [contact_type @ ''-'' @ contact_info, contact_type @ ''-'' @ contact_info] \<and>
          last evs = CacheSet (contact_type @ ''-'' @ contact_info))"
proof (cases "cache_get env cache (cacheKey contact_type contact_info)")
  case (Some v)
  with assms show ?thesis by (auto simp: get_orders_def Let_def cacheKey_def)
next
  case None
  show ?thesis
  proof (cases "contact_type = ''email''")
    case True
    with None assms obtain r uevs where
      s: "searchOrdersByEmail env contact_info = Some (r, uevs)" and
      r: "respond env cache (cacheKey contact_type contact_info) r
            (CacheGet (cacheKey contact_type contact_info) # uevs) = (resp, cache', evs)"
      by (auto simp: get_orders_def Let_def split: option.splits)
    from email_events[OF s] have "\<forall>e \<in> set uevs. is_upstream e" by simp
    from respond_keys[OF r this] show ?thesis by (simp add: cacheKey_def)
  next
    case False
    show ?thesis
    proof (cases "contact_type = ''phone''")
      case True
      with None assms \<open>contact_type \<noteq> ''email''\<close> obtain r uevs where
        s: "searchOrdersByPhone env contact_info = (r, uevs)" and
        r: "respond env cache (cacheKey contact_type contact_info) r
              (CacheGet (cacheKey contact_type contact_info) # uevs) = (resp, cache', evs)"
        by (auto simp: get_orders_def Let_def split: prod.splits)
      from phone_events[OF s] have "\<forall>e \<in> set uevs. is_upstream e" by simp
      from respond_keys[OF r this] show ?thesis by (simp add: cacheKey_def)
    next
      case False
      with None assms \<open>contact_type \<noteq> ''email''\<close> show ?thesis
        by (auto simp: get_orders_def Let_def cacheKey_def)
    qed
  qed
qed

theorem cache_key_hyphen_witness:
  "get_orders demo_env Map.empty ''email'' ''a@b.c'' =
     Some (Json200 demo_email_summaries, [''email-a@b.c'' \<mapsto> demo_email_summaries],
           [CacheGet ''email-a@b.c'',
            RestGet ''/orders.json?status=any&email=a%40b.c&limit=250'',
            RestGet ''https://shop/p2'', RestGet ''https://shop/p3'',
            CacheSet ''email-a@b.c'']) \<and>
   cache_keys [CacheGet ''email-a@b.c'',
               RestGet ''/orders.json?status=any&email=a%40b.c&limit=250'',
               RestGet ''https://shop/p2'', RestGet ''https://shop/p3'',
               CacheSet ''email-a@b.c''] = [''email'' @ ''-'' @ ''a@b.c'', ''email'' @ ''-'' @ ''a@b.c'']"
  using cache_key_hyphen[OF demo_email_lookup] demo_email_lookup by simp

text \<open>
  C5. A successful phone lookup returns its orders sorted by creation time, latest first,
  and the sort is stable: the orders of any one creation time appear in the order in which
  the customer-then-order aggregation holds them. (Creation times are the numbers that
  \<^verbatim>\<open>new Date(createdAt)\<close> yields.) The example: Ann with orders of January and March,
  Bob with one of February, give March, February, January.
\<close>

theorem phone_sorted_desc_stable:
  assumes "searchOrdersByPhone env phone = (Inr orders, evs)"
    and "graph_customers env (''phone:'' @ normalizedPhone phone) = Inr customers"
  shows "sorted_wrt (\<lambda>a b. created_ms env b \<le> created_ms env a) orders \<and>
         (\<forall>t. filter (\<lambda>s. created_ms env s = t) orders =
              filter (\<lambda>s. created_ms env s = t) (map normalize_graph (aggregated env customers)))"
  using phone_result[OF assms] by (simp add: sorted_desc_js_sort stable_js_sort)

theorem phone_sorted_desc_stable_witness:
  "searchOrdersByPhone demo_env ''555-1234'' =
     (Inr demo_phone_summaries,
      [GraphCustomers ''phone:5551234'', GraphOrders ''A'', GraphOrders ''B'']) \<and>
   graph_customers demo_env (''phone:'' @ normalizedPhone ''555-1234'') = Inr [demo_ann, demo_bob] \<and>
   sorted_wrt (\<lambda>a b. created_ms demo_env b \<le> created_ms demo_env a) demo_phone_summaries \<and>
   map created_at demo_phone_summaries = [''2024-03-01'', ''2024-02-01'', ''2024-01-01'']"
  using phone_sorted_desc_stable[OF demo_phone_run demo_customers]
  by (simp only: demo_phone_run demo_customers demo_phone_created simp_thms)

text \<open>
  C6. A lookup that misses the cache and whose strategy yields more than 1000 orders
  answers with all of them and leaves the store as it was, making no cache write. The same
  lookup made again on that store is therefore no cache hit: it gives the same answer by
  making the same upstream calls again, of which there is at least one.
\<close>

theorem large_result_not_cached:
  assumes miss: "cache_get env cache (cacheKey contact_type contact_info) = None"
    and run: "contact_type = ''email'' \<and> searchOrdersByEmail env contact_info = Some (Inr orders, evs) \<or>
              contact_type = ''phone'' \<and> searchOrdersByPhone env contact_info = (Inr orders, evs)"
    and big: "1000 < length orders"
  shows "get_orders env cache contact_type contact_info =
           Some (Json200 orders, cache, CacheGet (cacheKey contact_type contact_info) # evs) \<and>
         get_orders_twice env cache contact_type contact_info =
           Some ((Json200 orders, CacheGet (cacheKey contact_type contact_info) # evs),
                 (Json200 orders, CacheGet (cacheKey contact_type contact_info) # evs), cache) \<and>
         evs \<noteq> [] \<and> (\<forall>e \<in> set evs. is_upstream e)"
proof -
  have first: "get_orders env cache contact_type contact_info =
           Some (Json200 orders, cache, CacheGet (cacheKey contact_type contact_info) # evs)"
    using run miss big by (auto simp: get_orders_def Let_def respond_def)
  then have twice: "get_orders_twice env cache contact_type contact_info =
           Some ((Json200 orders, CacheGet (cacheKey contact_type contact_info) # evs),
                 (Json200 orders, CacheGet (cacheKey contact_type contact_info) # evs), cache)"
    by (simp add: get_orders_twice_def)
  have "evs \<noteq> [] \<and> (\<forall>e \<in> set evs. is_upstream e)"
    using run email_events[of env contact_info "Inr orders" evs]
      phone_events[of env contact_info "Inr orders" evs] by blast
  with first twice show ?thesis by simp
qed

theorem large_result_not_cached_witness:
  "cache_get demo_env Map.empty (cacheKey ''email'' ''big'') = None \<and>
   searchOrdersByEmail demo_env ''big'' =
     Some (Inr (replicate 1001 (normalize_rest (demo_rest_order ''#9'' [1]))),
           [RestGet ''/orders.json?status=any&email=big&limit=250'']) \<and>
   1000 < length (replicate 1001 (normalize_rest (demo_rest_order ''#9'' [1]))) \<and>
   get_orders_twice demo_env Map.empty ''email'' ''big'' =
     Some ((Json200 (replicate 1001 (normalize_rest (demo_rest_order ''#9'' [1]))),
            [CacheGet (cacheKey ''email'' ''big''),
             RestGet ''/orders.json?status=any&email=big&limit=250'']),
           (Json200 (replicate 1001 (normalize_rest (demo_rest_order ''#9'' [1]))),
            [CacheGet (cacheKey ''email'' ''big''),
             RestGet ''/orders.json?status=any&email=big&limit=250'']),
           Map.empty)"
proof -
  have miss: "cache_get demo_env Map.empty (cacheKey ''email'' ''big'') = None" by simp
  have big: "1000 < length (replicate 1001 (normalize_rest (demo_rest_order ''#9'' [1])))"
    by simp
  have run: "''email'' = ''email'' \<and> searchOrdersByEmail demo_env ''big'' =
        Some (Inr (replicate 1001 (normalize_rest (demo_rest_order ''#9'' [1]))),
              [RestGet ''/orders.json?status=any&email=big&limit=250'']) \<or>
      ''email'' = ''phone'' \<and> searchOrdersByPhone demo_env ''big'' =
        (Inr (replicate 1001 (normalize_rest (demo_rest_order ''#9'' [1]))),
         [RestGet ''/orders.json?status=any&email=big&limit=250''])"
    using demo_big_run by simp
  from large_result_not_cached[OF miss run big] miss big demo_big_run show ?thesis
    by (simp only: simp_thms)
qed

text \<open>
  C7. A \<open>contact_type\<close> other than \<^verbatim>\<open>email\<close> and \<^verbatim>\<open>phone\<close> is to be refused with
  status 400, without an upstream call. The handler reads the cache before it looks at
  \<open>contact_type\<close> (lines 269-273 come before line 280), and the key does not separate
  its two parts: \<^verbatim>\<open>email\<close> with \<^verbatim>\<open>a-b\<close> and \<^verbatim>\<open>email-a\<close> with \<^verbatim>\<open>b\<close> give the
  same key. So, starting from an empty store, after the email lookup of \<^verbatim>\<open>a-b\<close> (no
  orders, which is stored), the request with the contact type \<^verbatim>\<open>email-a\<close> and the
  contact \<^verbatim>\<open>b\<close> is answered with status 200 and the stored list, not refused.
  (\<open>get_orders_invalid_type\<close> above is the general behaviour: no upstream call, and
  status 400 exactly when the cache misses.)
\<close>

theorem invalid_type_served_from_cache:
  "get_orders demo_env Map.empty ''email'' ''a-b'' =
     Some (Json200 [], [''email-a-b'' \<mapsto> []],
           [CacheGet ''email-a-b'',
            RestGet ''/orders.json?status=any&email=a-b&limit=250'',
            CacheSet ''email-a-b'']) \<and>
   ''email-a'' \<noteq> ''email'' \<and> ''email-a'' \<noteq> ''phone'' \<and>
   get_orders demo_env [''email-a-b'' \<mapsto> []] ''email-a'' ''b'' =
     Some (Json200 [], [''email-a-b'' \<mapsto> []], [CacheGet ''email-a-b''])"
  by (simp add: get_orders_def Let_def cacheKey_def demo_empty_run respond_def)



text \<open>
  C9. In both normalizers an order without fulfillments (the list absent or empty) has no
  \<open>tracking_info\<close>. In the REST normalizer an order with a non-empty fulfillments list
  has a \<open>tracking_info\<close> object made of the first fulfillment's number, company and
  url, each absent when the fulfillment has none. In the graph normalizer
  \<open>tracking_info\<close> is present only when the fulfillments list is non-empty and the
  first fulfillment's tracking-info list is non-empty.
\<close>

theorem tracking_info_by_variant:
  "(ro_fulfillments r0 = None \<or> ro_fulfillments r0 = Some [] \<longrightarrow>
      tracking_info (normalize_rest r0) = None) \<and>
   (g_fulfillments g0 = None \<or> g_fulfillments g0 = Some [] \<longrightarrow>
      tracking_info (normalize_graph g0) = None) \<and>
   (ro_fulfillments r = Some (f # fs) \<longrightarrow>
      tracking_info (normalize_rest r) =
        Some \<lparr> tracking_number = rf_tracking_number f,
               tracking_company = rf_tracking_company f,
               tracking_url = rf_tracking_url f \<rparr>) \<and>
   (tracking_info (normalize_graph g) \<noteq> None \<longrightarrow>
      (\<exists>gf gfs. g_fulfillments g = Some (gf # gfs) \<and> trackingInfo gf \<noteq> []))"
  by (auto simp: normalize_rest_def normalize_graph_def rest_tracking_info_def
        graph_tracking_info_def split: option.splits list.splits)

theorem tracking_info_by_variant_witness:
  "ro_fulfillments (demo_rest_order ''#1'' [1]) = Some [] \<and>
   tracking_info (normalize_rest (demo_rest_order ''#1'' [1])) = None \<and>
   g_fulfillments (attach_customer demo_ann (demo_graph_order ''#A3'' ''2024-03-01'' [2, 3])) = Some [] \<and>
   tracking_info (normalize_graph
     (attach_customer demo_ann (demo_graph_order ''#A3'' ''2024-03-01'' [2, 3]))) = None \<and>
   ro_fulfillments ((demo_rest_order ''#1'' [1])
      \<lparr> ro_fulfillments := Some [\<lparr> rf_tracking_number = None, rf_tracking_company = None,
                                    rf_tracking_url = None \<rparr>] \<rparr>) =
     Some [\<lparr> rf_tracking_number = None, rf_tracking_company = None, rf_tracking_url = None \<rparr>] \<and>
   tracking_info (normalize_rest ((demo_rest_order ''#1'' [1])
      \<lparr> ro_fulfillments := Some [\<lparr> rf_tracking_number = None, rf_tracking_company = None,
                                    rf_tracking_url = None \<rparr>] \<rparr>)) =
     Some \<lparr> tracking_number = None, tracking_company = None, tracking_url = None \<rparr> \<and>
   tracking_info (normalize_graph (attach_customer demo_ann
      ((demo_graph_order ''#A3'' ''2024-03-01'' [2, 3])
         \<lparr> g_fulfillments := Some [\<lparr> trackingInfo =
              [\<lparr> company = Some ''UPS'', number = Some ''1Z'', url = None \<rparr>] \<rparr>] \<rparr>))) =
     Some \<lparr> tracking_number = Some ''1Z'', tracking_company = Some ''UPS'', tracking_url = None \<rparr>"
  using tracking_info_by_variant
    [of "demo_rest_order ''#1'' [1]"
        "attach_customer demo_ann (demo_graph_order ''#A3'' ''2024-03-01'' [2, 3])"
        "(demo_rest_order ''#1'' [1])
           \<lparr> ro_fulfillments := Some [\<lparr> rf_tracking_number = None, rf_tracking_company = None,
                                         rf_tracking_url = None \<rparr>] \<rparr>"
        "\<lparr> rf_tracking_number = None, rf_tracking_company = None, rf_tracking_url = None \<rparr>"
        "[]"
        "attach_customer demo_ann
           ((demo_graph_order ''#A3'' ''2024-03-01'' [2, 3])
              \<lparr> g_fulfillments := Some [\<lparr> trackingInfo =
                   [\<lparr> company = Some ''UPS'', number = Some ''1Z'', url = None \<rparr>] \<rparr>] \<rparr>)"]
  by (simp add: demo_rest_order_def demo_graph_order_def normalize_graph_def
        graph_tracking_info_def)

text \<open>
  C10. The order query asks for the first 10 line items of each order (line 179). When
  the upstream answers accordingly, every order returned by a phone lookup has at most 10
  \<open>line_items\<close>; these are the line items fetched for one of the fetched orders, and
  \<open>items_count\<close> is the sum of their quantities, whatever else the order holds upstream.
\<close>

theorem phone_line_items_limit:
  assumes limit: "\<forall>cid nodes. graph_orders env cid 250 10 = Inr nodes \<longrightarrow>
                    (\<forall>node \<in> set nodes. length (g_lineItems node) \<le> 10)"
    and run: "searchOrdersByPhone env phone = (Inr orders, evs)"
  shows "\<forall>s \<in> set orders. length (line_items s) \<le> 10 \<and>
           items_count s = sum_list (map quantity (line_items s)) \<and>
           (\<exists>(c::customer) nodes node. graph_orders env (c_id c) 250 10 = Inr nodes \<and> node \<in> set nodes \<and>
              line_items s = map (\<lambda>edge. \<lparr> title = gli_name edge, quantity = gli_quantity edge,
                                   price = amount (shopMoney (gli_originalUnitPriceSet edge)) \<rparr>)
                                 (g_lineItems node))"
proof
  fix s assume s: "s \<in> set orders"
  from phone_customers[OF run] obtain customers where
    cs: "graph_customers env (''phone:'' @ normalizedPhone phone) = Inr customers" by blast
  from phone_result[OF run cs] s obtain x where
    x: "x \<in> set (aggregated env customers)" "s = normalize_graph x"
    by (auto simp: set_js_sort)
  from aggregated_member[OF x(1)] obtain c nodes node where
    n: "graph_orders env (c_id c) 250 10 = Inr nodes" "node \<in> set nodes" "x = attach_customer c node"
    by blast
  from limit n have len: "length (g_lineItems node) \<le> 10" by blast
  have li: "line_items s = map (\<lambda>edge. \<lparr> title = gli_name edge, quantity = gli_quantity edge,
                                   price = amount (shopMoney (gli_originalUnitPriceSet edge)) \<rparr>)
                                 (g_lineItems node)"
    using x(2) n(3) by (simp add: normalize_graph_def)
  have "length (line_items s) \<le> 10" using li len by simp
  moreover have "items_count s = sum_list (map quantity (line_items s))"
    using x(2) by (simp add: items_count_graph)
  moreover have "\<exists>(c::customer) nodes node. graph_orders env (c_id c) 250 10 = Inr nodes \<and> node \<in> set nodes \<and>
              line_items s = map (\<lambda>edge. \<lparr> title = gli_name edge, quantity = gli_quantity edge,
                                   price = amount (shopMoney (gli_originalUnitPriceSet edge)) \<rparr>)
                                 (g_lineItems node)"
    using n(1,2) li by blast
  ultimately show "length (line_items s) \<le> 10 \<and>
           items_count s = sum_list (map quantity (line_items s)) \<and>
           (\<exists>(c::customer) nodes node. graph_orders env (c_id c) 250 10 = Inr nodes \<and> node \<in> set nodes \<and>
              line_items s = map (\<lambda>edge. \<lparr> title = gli_name edge, quantity = gli_quantity edge,
                                   price = amount (shopMoney (gli_originalUnitPriceSet edge)) \<rparr>)
                                 (g_lineItems node))"
    by (intro conjI)
qed

theorem phone_line_items_limit_witness:
  "searchOrdersByPhone demo_env ''555-1234'' =
     (Inr demo_phone_summaries,
      [GraphCustomers ''phone:5551234'', GraphOrders ''A'', GraphOrders ''B'']) \<and>
   list_all (\<lambda>s. length (line_items s) \<le> 10 \<and>
                  items_count s = sum_list (map quantity (line_items s))) demo_phone_summaries \<and>
   map (\<lambda>s. (length (line_items s), items_count s)) demo_phone_summaries =
     [(2, 5), (1, 4), (10, 10)] \<and>
   map (length \<circ> g_lineItems) (the (demo_stored_orders ''A'')) = [12, 2]"
proof -
  have "\<forall>s \<in> set demo_phone_summaries. length (line_items s) \<le> 10 \<and>
          items_count s = sum_list (map quantity (line_items s))"
    using phone_line_items_limit[OF demo_limit demo_phone_run] by blast
  then have "list_all (\<lambda>s. length (line_items s) \<le> 10 \<and>
                  items_count s = sum_list (map quantity (line_items s))) demo_phone_summaries"
    by (simp only: list_all_iff)
  moreover have "map (length \<circ> g_lineItems) (the (demo_stored_orders ''A'')) = [12, 2]"
    by (simp add: demo_stored_orders_def demo_graph_order_def)
  ultimately show ?thesis
    using demo_phone_run demo_phone_line_items by (simp only: simp_thms)
qed

end
